theory Spec2Isabelle
  imports Complex_Main "HOL-Library.AList" "HOL-Library.Sublist"
begin

section \<open>Python values and errors\<close>

text \<open>
  The exceptions the modelled functions of \<^verbatim>\<open>qlearn\<close> can raise. Every \<^verbatim>\<open>raise\<close> and
  every failing subscript of the source is a branch returning \<open>Inl\<close> of one of them.
\<close>

datatype py_error = ValueError | IndexError | AttributeError | KeyError

text \<open>
  The objects a simulation setup is built from (\<^verbatim>\<open>simulation/multisim.py\<close>). The source
  tells them apart with \<^verbatim>\<open>isinstance\<close>; here each class is a constructor and the
  natural number is the identity of the object.
  \<^item> \<open>PyDict\<close>: a \<^verbatim>\<open>dict\<close> with string keys, as its items in insertion order;
  \<^item> \<open>PySeq\<close>: a \<^verbatim>\<open>list\<close> or \<^verbatim>\<open>tuple\<close>;
  \<^item> \<open>PyTracker\<close>: an instance of \<^verbatim>\<open>Tracker\<close>;
  \<^item> \<open>PyFrame\<close>: a \<^verbatim>\<open>pd.DataFrame\<close> or \<^verbatim>\<open>pd.Series\<close>;
  \<^item> \<open>PyEstimator\<close>: a \<^verbatim>\<open>Pipeline\<close> or \<^verbatim>\<open>BaseEstimator\<close>;
  \<^item> \<open>PyComposer\<close>: a \<^verbatim>\<open>MarketDataComposer\<close> (declared outside the files at hand; an
    estimator that can be narrowed to an interval);
  \<^item> \<open>PyOther\<close>: an object of any other class.
\<close>

datatype pyobj =
    PyNone
  | PyDict "(string \<times> pyobj) list"
  | PySeq "pyobj list"
  | PyTracker nat
  | PyFrame nat
  | PyEstimator nat
  | PyComposer nat
  | PyOther nat

section \<open>Classification of setup nodes\<close>

datatype Types = UKNOWN | LIST | TRACKER | SIGNAL | ESTIMATOR

fun type_of :: "pyobj \<Rightarrow> Types" where
  "type_of PyNone = UKNOWN"
| "type_of (PySeq xs) = LIST"
| "type_of (PyTracker t) = TRACKER"
| "type_of (PyFrame s) = SIGNAL"
| "type_of (PyEstimator e) = ESTIMATOR"
| "type_of (PyComposer e) = ESTIMATOR"
| "type_of (PyDict kvs) = UKNOWN"
| "type_of (PyOther x) = UKNOWN"

record SimSetup =
  signals :: pyobj
  signal_type :: Types
  trackers :: pyobj
  name :: string

definition SimSetup_init :: "pyobj \<Rightarrow> pyobj \<Rightarrow> string \<Rightarrow> SimSetup" where
  "SimSetup_init sigs trks experiment_name =
     \<lparr>signals = sigs, signal_type = type_of sigs, trackers = trks, name = experiment_name\<rparr>"

definition is_signal_or_generator :: "pyobj \<Rightarrow> bool" where
  "is_signal_or_generator obj = (type_of obj \<in> set [SIGNAL, ESTIMATOR])"

definition is_generator :: "pyobj \<Rightarrow> bool" where
  "is_generator obj = (type_of obj = ESTIMATOR)"

definition is_tracker :: "pyobj \<Rightarrow> bool" where
  "is_tracker obj = (type_of obj = TRACKER)"

section \<open>Decimal rendering of an index\<close>

definition digit_char :: "nat \<Rightarrow> char" where
  "digit_char d = ''0123456789'' ! d"

text \<open>Python's \<^verbatim>\<open>str(j)\<close> for the non-negative integers \<^verbatim>\<open>enumerate\<close> yields.\<close>

fun str_nat :: "nat \<Rightarrow> string" where
  "str_nat n = (if n < 10 then [digit_char n] else str_nat (n div 10) @ [digit_char (n mod 10)])"

declare str_nat.simps [simp del]

section \<open>The setup resolver\<close>

text \<open>
  \<^verbatim>\<open>_recognize(setup, data, name)\<close>. The two loops of the source are the two auxiliary
  functions: \<open>recognize_items\<close> walks \<^verbatim>\<open>setup.items()\<close> of a dict, \<open>recognize_elems\<close> walks
  \<^verbatim>\<open>enumerate(setup)\<close> of a list or tuple with the running index \<open>j\<close>. The argument
  \<open>data\<close> is only handed down, as in the source.
\<close>

fun recognize :: "pyobj \<Rightarrow> 'd \<Rightarrow> string \<Rightarrow> SimSetup list"
  and recognize_items :: "(string \<times> pyobj) list \<Rightarrow> 'd \<Rightarrow> string \<Rightarrow> SimSetup list"
  and recognize_elems :: "pyobj list \<Rightarrow> nat \<Rightarrow> 'd \<Rightarrow> string \<Rightarrow> SimSetup list"
where
  "recognize (PyDict kvs) data nm = recognize_items kvs data nm"
| "recognize (PySeq xs) data nm =
     (if length xs = 2 \<and> is_signal_or_generator (xs ! 0) \<and> is_tracker (xs ! 1)
      then [SimSetup_init (xs ! 0) (xs ! 1) nm]
      else recognize_elems xs 0 data nm)"
| "recognize PyNone data nm = []"
| "recognize (PyTracker t) data nm = [SimSetup_init PyNone (PyTracker t) nm]"
| "recognize (PyFrame s) data nm = [SimSetup_init (PyFrame s) PyNone nm]"
| "recognize (PyEstimator e) data nm = [SimSetup_init (PyEstimator e) PyNone nm]"
| "recognize (PyComposer e) data nm = [SimSetup_init (PyComposer e) PyNone nm]"
| "recognize (PyOther x) data nm = []"
| "recognize_items [] data nm = []"
| "recognize_items ((n, v) # kvs) data nm =
     recognize v data (nm @ ''/'' @ n) @ recognize_items kvs data nm"
| "recognize_elems [] j data nm = []"
| "recognize_elems (s # ss) j data nm =
     recognize s data (nm @ ''/'' @ str_nat j) @ recognize_elems ss (Suc j) data nm"

section \<open>Floating-point values and their comparisons\<close>

text \<open>
  The values of a pandas series are floats. Only their comparisons matter here: a finite
  float is the real number it denotes, the two infinities are below and above every finite
  value, and every comparison with \<open>NaN\<close> is false. Comparisons of floats are exact, so
  they are the comparisons of the reals. Sums and differences of floats round: where the
  source adds or subtracts, the machine operation is a parameter of the model.
\<close>

datatype pyfloat = NaN | NInf | Fin real | PInf

fun fle :: "pyfloat \<Rightarrow> pyfloat \<Rightarrow> bool" where
  "fle NaN y = False"
| "fle x NaN = False"
| "fle NInf y = True"
| "fle x PInf = True"
| "fle (Fin a) (Fin b) = (a \<le> b)"
| "fle x y = False"

fun flt :: "pyfloat \<Rightarrow> pyfloat \<Rightarrow> bool" where
  "flt NaN y = False"
| "flt x NaN = False"
| "flt NInf NInf = False"
| "flt NInf y = True"
| "flt PInf y = False"
| "flt (Fin a) (Fin b) = (a < b)"
| "flt (Fin a) PInf = True"
| "flt (Fin a) NInf = False"

definition fge :: "pyfloat \<Rightarrow> pyfloat \<Rightarrow> bool" where
  "fge x y = fle y x"

definition fgt :: "pyfloat \<Rightarrow> pyfloat \<Rightarrow> bool" where
  "fgt x y = flt y x"

section \<open>Series operations\<close>

text \<open>
  \<^verbatim>\<open>s.shift(1)\<close>: every value moves one row down, the first row becomes \<open>NaN\<close>, the last
  value is dropped; the index stays.
\<close>

definition shift1 :: "pyfloat list \<Rightarrow> pyfloat list" where
  "shift1 vs = (if vs = [] then [] else NaN # butlast vs)"

text \<open>
  \<^verbatim>\<open>x[mask].index\<close> for a boolean mask over the same rows: the labels of the rows where
  the mask holds, in row order.
\<close>

definition bool_index :: "'i list \<Rightarrow> bool list \<Rightarrow> 'i list" where
  "bool_index idx bs = map fst (filter snd (zip idx bs))"

section \<open>Edge detectors (core/generators.py)\<close>

text \<open>
  A series is its rows (label, value) in order. The threshold of \<^verbatim>\<open>crossup\<close> and
  \<^verbatim>\<open>crossdown\<close> is a float or a series. Comparing two series that are not identically
  labelled raises \<^verbatim>\<open>ValueError\<close> in pandas; a scalar is compared with every row.
\<close>

type_synonym 'i series = "('i \<times> pyfloat) list"

datatype 'i threshold = Scalar pyfloat | SeriesT "'i series"

definition thr_now :: "'i list \<Rightarrow> 'i threshold \<Rightarrow> py_error + pyfloat list" where
  \<comment> \<open>the values of \<^verbatim>\<open>t\<close>, row by row of \<^verbatim>\<open>x\<close>\<close>
  "thr_now idx t = (case t of
       Scalar c \<Rightarrow> Inr (replicate (length idx) c)
     | SeriesT s \<Rightarrow> if map fst s = idx then Inr (map snd s) else Inl ValueError)"

definition thr_prev :: "'i list \<Rightarrow> 'i threshold \<Rightarrow> py_error + pyfloat list" where
  \<comment> \<open>the values of \<^verbatim>\<open>t1 = t.shift(1) if isinstance(t, pd.Series) else t\<close>\<close>
  "thr_prev idx t = (case t of
       Scalar c \<Rightarrow> Inr (replicate (length idx) c)
     | SeriesT s \<Rightarrow> if map fst s = idx then Inr (shift1 (map snd s)) else Inl ValueError)"

definition crossup :: "'i series \<Rightarrow> 'i threshold \<Rightarrow> py_error + 'i list" where
  "crossup x t =
     (case thr_now (map fst x) t of Inl e \<Rightarrow> Inl e | Inr tv \<Rightarrow>
      case thr_prev (map fst x) t of Inl e \<Rightarrow> Inl e | Inr t1 \<Rightarrow>
        Inr (bool_index (map fst x)
               (map2 (\<and>) (map2 fgt (map snd x) tv) (map2 fle (shift1 (map snd x)) t1))))"

definition crossdown :: "'i series \<Rightarrow> 'i threshold \<Rightarrow> py_error + 'i list" where
  "crossdown x t =
     (case thr_now (map fst x) t of Inl e \<Rightarrow> Inl e | Inr tv \<Rightarrow>
      case thr_prev (map fst x) t of Inl e \<Rightarrow> Inl e | Inr t1 \<Rightarrow>
        Inr (bool_index (map fst x)
               (map2 (\<and>) (map2 flt (map snd x) tv) (map2 fge (shift1 (map snd x)) t1))))"

definition aligned :: "'i series \<Rightarrow> 'i threshold \<Rightarrow> bool" where
  \<comment> \<open>a constant, or a series with the index of \<open>x\<close>\<close>
  "aligned x t = (case t of Scalar c \<Rightarrow> True | SeriesT s \<Rightarrow> map fst s = map fst x)"

section \<open>Range breakout detector, OHLC mode (core/generators.py)\<close>

text \<open>
  A row of the frame \<^verbatim>\<open>X\<close>: its index label (a timestamp, in time units) and the columns
  \<^verbatim>\<open>_ohlc_breaks\<close> reads. The frame is the list of its rows, in row order.
\<close>

record bar =
  bar_ts :: int
  RangeTop :: pyfloat
  RangeBot :: pyfloat
  bar_open :: pyfloat
  bar_high :: pyfloat
  bar_low :: pyfloat
  bar_close :: pyfloat

text \<open>
  The float sum and the float difference of the machine, rounding included, are the
  parameters \<open>add\<close> and \<open>sub\<close> of every definition below.
\<close>

definition band_U :: "(pyfloat \<Rightarrow> pyfloat \<Rightarrow> pyfloat) \<Rightarrow> pyfloat \<Rightarrow> bar list \<Rightarrow> pyfloat list" where
  \<comment> \<open>\<^verbatim>\<open>U = X.RangeTop + self.threshold\<close>\<close>
  "band_U add thr X = map (\<lambda>b. add (RangeTop b) thr) X"

definition band_B :: "(pyfloat \<Rightarrow> pyfloat \<Rightarrow> pyfloat) \<Rightarrow> pyfloat \<Rightarrow> bar list \<Rightarrow> pyfloat list" where
  \<comment> \<open>\<^verbatim>\<open>B = X.RangeBot - self.threshold\<close>\<close>
  "band_B sub thr X = map (\<lambda>b. sub (RangeBot b) thr) X"

definition b1_bU :: "(pyfloat \<Rightarrow> pyfloat \<Rightarrow> pyfloat) \<Rightarrow> pyfloat \<Rightarrow> bar list \<Rightarrow> bool list" where
  "b1_bU add thr X = map2 fle (shift1 (map bar_high X)) (shift1 (band_U add thr X))"

definition b1_aL :: "(pyfloat \<Rightarrow> pyfloat \<Rightarrow> pyfloat) \<Rightarrow> pyfloat \<Rightarrow> bar list \<Rightarrow> bool list" where
  "b1_aL sub thr X = map2 fge (shift1 (map bar_low X)) (shift1 (band_B sub thr X))"

definition l_c :: "(pyfloat \<Rightarrow> pyfloat \<Rightarrow> pyfloat) \<Rightarrow> pyfloat \<Rightarrow> bar list \<Rightarrow> bool list" where
  "l_c add thr X =
     map2 (\<and>) (map2 (\<or>) (b1_bU add thr X) (map2 fle (map bar_open X) (band_U add thr X)))
               (map2 fgt (map bar_close X) (band_U add thr X))"

definition s_c :: "(pyfloat \<Rightarrow> pyfloat \<Rightarrow> pyfloat) \<Rightarrow> pyfloat \<Rightarrow> bar list \<Rightarrow> bool list" where
  "s_c sub thr X =
     map2 (\<and>) (map2 (\<or>) (b1_aL sub thr X) (map2 fge (map bar_open X) (band_B sub thr X)))
               (map2 flt (map bar_close X) (band_B sub thr X))"

definition l_o :: "(pyfloat \<Rightarrow> pyfloat \<Rightarrow> pyfloat) \<Rightarrow> pyfloat \<Rightarrow> bar list \<Rightarrow> bool list" where
  "l_o add thr X = map2 (\<and>) (b1_bU add thr X) (map2 fgt (map bar_open X) (band_U add thr X))"

definition s_o :: "(pyfloat \<Rightarrow> pyfloat \<Rightarrow> pyfloat) \<Rightarrow> pyfloat \<Rightarrow> bar list \<Rightarrow> bool list" where
  "s_o sub thr X = map2 (\<and>) (b1_aL sub thr X) (map2 flt (map bar_open X) (band_B sub thr X))"











section \<open>Constructors that validate their threshold (core/generators.py)\<close>

record InternalBarStrength =
  ibs_timeframe :: string
  ibs_threshold :: pyfloat
  ibs_tz :: string
  ibs_exact_time :: bool

definition InternalBarStrength_init ::
  "string \<Rightarrow> pyfloat \<Rightarrow> string \<Rightarrow> py_error + InternalBarStrength" where
  "InternalBarStrength_init timeframe threshold tz =
     (if fge threshold (Fin (1/2)) \<or> fle threshold (Fin 0) then Inl ValueError
      else Inr \<lparr>ibs_timeframe = timeframe, ibs_threshold = threshold, ibs_tz = tz,
                ibs_exact_time = True\<rparr>)"

record OsiMomentum =
  osi_period :: int
  osi_smoothing :: int
  osi_threshold :: pyfloat

definition OsiMomentum_init :: "int \<Rightarrow> int \<Rightarrow> pyfloat \<Rightarrow> py_error + OsiMomentum" where
  "OsiMomentum_init period smoothing threshold =
     (if fgt threshold (Fin 1) then Inl ValueError
      else Inr \<lparr>osi_period = period, osi_smoothing = smoothing, osi_threshold = threshold\<rparr>)"

section \<open>The run repository (simulation/management.py)\<close>

text \<open>
  \<^verbatim>\<open>str.split(sep)\<close> for a separator of one character: the pieces between the separators,
  empty pieces included; never the empty list.
\<close>

fun split_on :: "char \<Rightarrow> string \<Rightarrow> string list" where
  "split_on c [] = [[]]"
| "split_on c (x # xs) =
     (if x = c then [] # split_on c xs
      else (case split_on c xs of w # ws \<Rightarrow> (x # w) # ws | [] \<Rightarrow> [[x]]))"

text \<open>The \<^verbatim>\<open>mstruct(runid=r, symbol=.., path=path)\<close> stored for a key.\<close>

record mstruct =
  runid :: string
  symbol :: string
  path :: string

text \<open>
  Dictionaries keep insertion order, so a dict is the list of its items with distinct
  keys: \<open>map_of\<close> reads it, \<open>AList.update\<close> assigns (an old key keeps its place, a new
  one goes last). The index is \<^verbatim>\<open>prj_data\<close>: project, then run id, then sequence number.
\<close>

type_synonym run_records = "(int \<times> mstruct) list"

type_synonym prj_index = "(string \<times> (string \<times> run_records) list) list"

definition dd_get :: "'v \<Rightarrow> ('k \<times> 'v) list \<Rightarrow> 'k \<Rightarrow> 'v \<times> ('k \<times> 'v) list" where
  \<comment> \<open>\<^verbatim>\<open>d[k]\<close> on a \<^verbatim>\<open>defaultdict\<close>: a missing key is inserted with the default value
      first. The value read and the dictionary afterwards.\<close>
  "dd_get dflt d k = (case map_of d k of Some v \<Rightarrow> (v, d) | None \<Rightarrow> (dflt, d @ [(k, dflt)]))"

text \<open>
  One iteration of the loop of \<^verbatim>\<open>_collect_data\<close>, for the listed key \<open>rec\<close>. The loop
  header unpacks \<^verbatim>\<open>rec.split('/')[1:] + [rec]\<close> into \<^verbatim>\<open>p, s, r, path\<close> and raises
  \<^verbatim>\<open>ValueError\<close> unless there are exactly four values. Python's \<^verbatim>\<open>int\<close> on a string is
  the parameter \<open>py_int\<close>, \<open>None\<close> where it raises \<^verbatim>\<open>ValueError\<close>.
\<close>

definition collect_step ::
  "(string \<Rightarrow> int option) \<Rightarrow> prj_index \<Rightarrow> string \<Rightarrow> py_error + prj_index" where
  "collect_step py_int prj_data rec =
     (case tl (split_on CHR ''/'' rec) @ [rec] of
        [p, s, r, pth] \<Rightarrow>
          (let sinf = split_on CHR ''.'' s;
               (prj, d1) = dd_get [] prj_data p;
               (ra, prj1) = dd_get [] prj r
           in if length sinf < 2 then Inl IndexError
              else case py_int (sinf ! 1) of
                None \<Rightarrow> Inl ValueError
              | Some k \<Rightarrow>
                  if length sinf < 3 then Inl IndexError
                  else let ra1 = AList.update k \<lparr>runid = r, symbol = sinf ! 2, path = pth\<rparr> ra;
                           ra2 = sort_key fst ra1
                       in Inr (AList.update p (AList.update r ra2 prj1) d1))
      | _ \<Rightarrow> Inl ValueError)"

fun collect_loop ::
  "(string \<Rightarrow> int option) \<Rightarrow> prj_index \<Rightarrow> string list \<Rightarrow> py_error + prj_index" where
  "collect_loop py_int prj_data [] = Inr prj_data"
| "collect_loop py_int prj_data (rec # recs) =
     (case collect_step py_int prj_data rec of
        Inl e \<Rightarrow> Inl e
      | Inr d \<Rightarrow> collect_loop py_int d recs)"

definition collect_data :: "(string \<Rightarrow> int option) \<Rightarrow> string list \<Rightarrow> py_error + prj_index" where
  \<comment> \<open>\<^verbatim>\<open>_collect_data\<close>; \<open>recs\<close> is the listing \<^verbatim>\<open>z_ls('runs/', host=host)\<close> returned\<close>
  "collect_data py_int recs = collect_loop py_int [] recs"

text \<open>
  What one iteration reads from a key, apart from the index it updates: project, run id,
  sequence number and the stored record.
\<close>

definition parse_key ::
  "(string \<Rightarrow> int option) \<Rightarrow> string \<Rightarrow> py_error + (string \<times> string \<times> int \<times> mstruct)" where
  "parse_key py_int rec =
     (case tl (split_on CHR ''/'' rec) @ [rec] of
        [p, s, r, pth] \<Rightarrow>
          (let sinf = split_on CHR ''.'' s
           in if length sinf < 2 then Inl IndexError
              else case py_int (sinf ! 1) of
                None \<Rightarrow> Inl ValueError
              | Some k \<Rightarrow>
                  if length sinf < 3 then Inl IndexError
                  else Inr (p, r, k, \<lparr>runid = r, symbol = sinf ! 2, path = pth\<rparr>))
      | _ \<Rightarrow> Inl ValueError)"

definition lookup3 :: "prj_index \<Rightarrow> string \<times> string \<times> int \<Rightarrow> mstruct option" where
  \<comment> \<open>\<^verbatim>\<open>index[p][r][k]\<close>, if all three keys are there\<close>
  "lookup3 idx = (\<lambda>(p, r, k).
     case map_of idx p of None \<Rightarrow> None
     | Some runs \<Rightarrow> (case map_of runs r of None \<Rightarrow> None | Some recs \<Rightarrow> map_of recs k))"

fun records_of_keys ::
  "(string \<Rightarrow> int option) \<Rightarrow> string list \<Rightarrow> (string \<times> string \<times> int \<rightharpoonup> mstruct)
     \<Rightarrow> (string \<times> string \<times> int \<rightharpoonup> mstruct)" where
  \<comment> \<open>the records of the parsed keys, a later key replacing an earlier one with the same
      project, run id and sequence number\<close>
  "records_of_keys py_int [] f = f"
| "records_of_keys py_int (rec # recs) f =
     (case parse_key py_int rec of
        Inl e \<Rightarrow> records_of_keys py_int recs f
      | Inr (p, r, k, m) \<Rightarrow> records_of_keys py_int recs (f((p, r, k) \<mapsto> m)))"

text \<open>
  The assignments of one iteration, for a parsed key: \<^verbatim>\<open>ra = prj_data[p][r]\<close>,
  \<^verbatim>\<open>ra[k] = mstruct(..)\<close>, \<^verbatim>\<open>prj_data[p][r] = dict(sorted(ra.items(), ..))\<close>.
\<close>

definition index_put :: "prj_index \<Rightarrow> string \<Rightarrow> string \<Rightarrow> int \<Rightarrow> mstruct \<Rightarrow> prj_index" where
  "index_put d p r k m =
     (let (prj, d1) = dd_get [] d p;
          (ra, prj1) = dd_get [] prj r
      in AList.update p (AList.update r (sort_key fst (AList.update k m ra)) prj1) d1)"

text \<open>Reading a \<^verbatim>\<open>defaultdict\<close> whose default is empty, without the insertion.\<close>

definition getd :: "('k \<times> 'v list) list \<Rightarrow> 'k \<Rightarrow> 'v list" where
  "getd d k = (case map_of d k of Some v \<Rightarrow> v | None \<Rightarrow> [])"

text \<open>
  The index is grouped and ordered: no project twice, no run id twice within a project,
  the sequence numbers of a run strictly ascending.
\<close>

definition wf_index :: "prj_index \<Rightarrow> bool" where
  "wf_index idx = (distinct (map fst idx) \<and>
     (\<forall>(p, runs) \<in> set idx. distinct (map fst runs) \<and>
        (\<forall>(r, recs) \<in> set runs. sorted_wrt (<) (map fst recs))))"

text \<open>
  The key layout \<^verbatim>\<open>_collect_data\<close> parses (and \<^verbatim>\<open>SimulationRunData.load\<close> builds,
  \<^verbatim>\<open>runs/{prj}/{t_id}/{run_id}\<close>): after \<^verbatim>\<open>runs\<close> come the project, a task segment
  \<^verbatim>\<open>{task}.{sequence_index}.{symbol}\<close> and, last, the run id. \<open>key_parts_ok\<close>: no part
  contains the separator that delimits it, and the sequence index is an integer numeral.
\<close>

definition run_key :: "string \<times> string \<times> string \<times> string \<times> string \<Rightarrow> string" where
  "run_key = (\<lambda>(prj, task, ks, smb, rid).
     ''runs/'' @ prj @ ''/'' @ task @ ''.'' @ ks @ ''.'' @ smb @ ''/'' @ rid)"

definition key_parts_ok ::
  "(string \<Rightarrow> int option) \<Rightarrow> string \<times> string \<times> string \<times> string \<times> string \<Rightarrow> bool" where
  "key_parts_ok py_int = (\<lambda>(prj, task, ks, smb, rid).
     CHR ''/'' \<notin> set (prj @ task @ ks @ smb @ rid) \<and> CHR ''.'' \<notin> set (task @ ks @ smb)
     \<and> py_int ks \<noteq> None)"

definition digit_val :: "char \<Rightarrow> nat option" where
  "digit_val c = (if c \<in> set ''0123456789'' then Some (of_char c - 48) else None)"

fun int_of_decimal_acc :: "nat \<Rightarrow> string \<Rightarrow> nat option" where
  "int_of_decimal_acc acc [] = Some acc"
| "int_of_decimal_acc acc (c # cs) =
     (case digit_val c of None \<Rightarrow> None | Some d \<Rightarrow> int_of_decimal_acc (10 * acc + d) cs)"

definition int_of_decimal :: "string \<Rightarrow> int option" where
  \<comment> \<open>\<^verbatim>\<open>int(s)\<close> on a plain string of decimal digits; used for the concrete examples only\<close>
  "int_of_decimal s = (if s = [] then None else map_option int (int_of_decimal_acc 0 s))"

text \<open>The manager: \<^verbatim>\<open>self.host\<close> and the index \<^verbatim>\<open>self.p\<close>.\<close>

record SimulationsManager =
  mgr_host :: "string option"
  mgr_p :: prj_index

definition SimulationsManager_init ::
  "(string \<Rightarrow> int option) \<Rightarrow> string option \<Rightarrow> string list \<Rightarrow> py_error + SimulationsManager" where
  \<comment> \<open>\<open>listing\<close> is what \<^verbatim>\<open>z_ls('runs/', host=host)\<close> returns\<close>
  "SimulationsManager_init py_int host listing =
     (case collect_data py_int listing of
        Inl e \<Rightarrow> Inl e
      | Inr d \<Rightarrow> Inr \<lparr>mgr_host = host, mgr_p = d\<rparr>)"

text \<open>
  The lookups return their result and the manager afterwards, so that a change of the
  index is visible. \<^verbatim>\<open>self.p\<close> is a \<^verbatim>\<open>defaultdict\<close>: \<^verbatim>\<open>self.p[prj]\<close> is \<open>dd_get\<close>.
\<close>

definition projects :: "SimulationsManager \<Rightarrow> string list \<times> SimulationsManager" where
  "projects m = (map fst (mgr_p m), m)"

definition runs_for :: "SimulationsManager \<Rightarrow> string \<Rightarrow> string list \<times> SimulationsManager" where
  "runs_for m prj =
     (let (runs, p') = dd_get [] (mgr_p m) prj in (map fst runs, m\<lparr>mgr_p := p'\<rparr>))"

text \<open>
  \<^verbatim>\<open>SimulationRunData.p\<close> is the very dictionary object the manager's index holds for the
  project and run id (\<^verbatim>\<open>self.p[prj].get(run_id)\<close> hands out the object, not a copy), until
  \<^verbatim>\<open>delete\<close> rebinds it to a new empty list. \<open>IndexDict prj run_id\<close> is the reference to
  that shared object, \<open>EmptyList\<close> the list.
\<close>

datatype run_p = IndexDict string string | EmptyList

record SimulationRunData =
  rd_p :: run_p
  rd_prj :: string
  rd_run_id :: string
  rd_host :: "string option"

definition run_data ::
  "SimulationsManager \<Rightarrow> string \<Rightarrow> string \<Rightarrow> py_error + SimulationRunData" where
  "run_data m prj run_id =
     (case map_of (mgr_p m) prj of
        None \<Rightarrow> Inl ValueError
      | Some runs \<Rightarrow>
          if run_id \<notin> set (map fst runs) then Inl ValueError
          else Inr \<lparr>rd_p = IndexDict prj run_id, rd_prj = prj, rd_run_id = run_id,
                    rd_host = None\<rparr>)"

definition deref :: "SimulationsManager \<Rightarrow> run_p \<Rightarrow> run_records option" where
  \<comment> \<open>the dictionary a reference points at\<close>
  "deref m ref = (case ref of
       EmptyList \<Rightarrow> None
     | IndexDict prj run_id \<Rightarrow>
         (case map_of (mgr_p m) prj of None \<Rightarrow> None | Some runs \<Rightarrow> map_of runs run_id))"

definition z_del :: "string \<Rightarrow> (string \<rightharpoonup> 'a) \<Rightarrow> (string \<rightharpoonup> 'a)" where
  \<comment> \<open>Modelled from the spec: \<^verbatim>\<open>z_del\<close> of the storage library (outside the files at
      hand) is the storage collaborator's \<^verbatim>\<open>delete(key)\<close>: the artifact stored under the
      key is removed.\<close>
  "z_del key store = store(key := None)"

text \<open>
  \<^verbatim>\<open>SimulationRunData.delete\<close>, on the state it can reach: the run data object itself,
  the manager holding the shared dictionary, and the store. A list has no \<^verbatim>\<open>items\<close>, so
  a second \<^verbatim>\<open>delete\<close> raises \<^verbatim>\<open>AttributeError\<close>. A reference that points at nothing is
  \<^verbatim>\<open>KeyError\<close> here; \<open>run_data\<close> never makes one.
\<close>

definition delete ::
  "SimulationRunData \<Rightarrow> SimulationsManager \<Rightarrow> (string \<rightharpoonup> 'a)
     \<Rightarrow> py_error + (SimulationRunData \<times> SimulationsManager \<times> (string \<rightharpoonup> 'a))" where
  "delete rd m store =
     (case rd_p rd of
        EmptyList \<Rightarrow> Inl AttributeError
      | IndexDict prj run_id \<Rightarrow>
          (case deref m (IndexDict prj run_id) of
             None \<Rightarrow> Inl KeyError
           | Some recs \<Rightarrow>
               Inr (rd\<lparr>rd_p := EmptyList\<rparr>, m, fold (\<lambda>(k, r). z_del (path r)) recs store)))"

section \<open>Stub signals and the executor (simulation/multisim.py)\<close>













section \<open>Properties of the setup resolver\<close>

lemma str_nat_0: "str_nat 0 = ''0''"
  by (simp add: str_nat.simps digit_char_def)

lemma str_nat_1: "str_nat (Suc 0) = ''1''"
  by (simp add: str_nat.simps digit_char_def)

lemma type_of_SIGNAL: "type_of x = SIGNAL \<Longrightarrow> \<exists>s. x = PyFrame s"
  by (cases x) simp_all

lemma type_of_TRACKER: "type_of x = TRACKER \<Longrightarrow> \<exists>t. x = PyTracker t"
  by (cases x) simp_all

lemma type_of_ESTIMATOR: "type_of x = ESTIMATOR \<Longrightarrow> (\<exists>e. x = PyEstimator e) \<or> (\<exists>e. x = PyComposer e)"
  by (cases x) simp_all

lemma recognize_tracker: "type_of x = TRACKER \<Longrightarrow> recognize x d nm = [SimSetup_init PyNone x nm]"
  by (cases x) simp_all

lemma recognize_frame: "type_of x = SIGNAL \<Longrightarrow> recognize x d nm = [SimSetup_init x PyNone nm]"
  by (cases x) simp_all

lemma recognize_estimator: "type_of x = ESTIMATOR \<Longrightarrow> recognize x d nm = [SimSetup_init x PyNone nm]"
  by (cases x) simp_all

lemma recognize_nonnull:
  "u \<in> set (recognize s d nm) \<Longrightarrow> \<not> (signals u = PyNone \<and> trackers u = PyNone)"
  "u \<in> set (recognize_items kvs d nm) \<Longrightarrow> \<not> (signals u = PyNone \<and> trackers u = PyNone)"
  "u \<in> set (recognize_elems ss j d nm) \<Longrightarrow> \<not> (signals u = PyNone \<and> trackers u = PyNone)"
  by (induction s d nm and kvs d nm and ss j d nm
        rule: recognize_recognize_items_recognize_elems.induct)
     (auto simp: SimSetup_init_def is_signal_or_generator_def is_tracker_def split: if_splits)

text \<open>
  Claim C3, as the spec states it: for the setup \<^verbatim>\<open>{"a": [genX, trackerY], "b": [seriesZ]}\<close>
  the second unit's qualified name ends in \<^verbatim>\<open>/b\<close>. On the code it does not: \<^verbatim>\<open>[seriesZ]\<close>
  is a sequence of one element, so the resolver descends into it and appends the element's
  index; the name is \<^verbatim>\<open>prj/b/0\<close>.
\<close>

theorem C3_name_of_b_counterexample:
  "map name (recognize (PyDict [(''a'', PySeq [PyEstimator 1, PyTracker 2]),
                                (''b'', PySeq [PyFrame 3])]) () ''prj'')
     = [''prj/a'', ''prj/b/0'']
   \<and> \<not> suffix ''/b'' (name (recognize (PyDict [(''a'', PySeq [PyEstimator 1, PyTracker 2]),
                                (''b'', PySeq [PyFrame 3])]) () ''prj'' ! 1))"
  by (simp add: is_signal_or_generator_def is_tracker_def str_nat_0 SimSetup_init_def suffix_def)

text \<open>
  Claim C3, amended: for the setup \<^verbatim>\<open>{"a": [genX, trackerY], "b": [seriesZ]}\<close> with genX a
  signal generator, trackerY a tracker and seriesZ a signal series, the resolver produces
  exactly two units, in the mapping's insertion order: the first named \<^verbatim>\<open>name/a\<close> pairs
  genX with trackerY, the second named \<^verbatim>\<open>name/b/0\<close> holds seriesZ with no tracker.
\<close>

theorem C3_resolve_pair_and_series:
  assumes "type_of genX = ESTIMATOR" and "type_of trackerY = TRACKER"
    and "type_of seriesZ = SIGNAL"
  shows "recognize (PyDict [(''a'', PySeq [genX, trackerY]), (''b'', PySeq [seriesZ])]) d nm
     = [SimSetup_init genX trackerY (nm @ ''/a''), SimSetup_init seriesZ PyNone (nm @ ''/b/0'')]"
  using assms
  by (simp add: is_signal_or_generator_def is_tracker_def str_nat_0 recognize_frame)

theorem C3_resolve_pair_and_series_witness:
  "type_of (PyEstimator 1) = ESTIMATOR \<and> type_of (PyTracker 2) = TRACKER
   \<and> type_of (PyFrame 3) = SIGNAL
   \<and> recognize (PyDict [(''a'', PySeq [PyEstimator 1, PyTracker 2]),
                         (''b'', PySeq [PyFrame 3])]) () ''prj''
     = [\<lparr>signals = PyEstimator 1, signal_type = ESTIMATOR, trackers = PyTracker 2,
          name = ''prj/a''\<rparr>,
        \<lparr>signals = PyFrame 3, signal_type = SIGNAL, trackers = PyNone, name = ''prj/b/0''\<rparr>]"
proof -
  have g: "type_of (PyEstimator 1) = ESTIMATOR" and t: "type_of (PyTracker 2) = TRACKER"
    and z: "type_of (PyFrame 3) = SIGNAL"
    by simp_all
  from C3_resolve_pair_and_series [OF g t z, of "()" "''prj''"] g t z
  show ?thesis by (simp add: SimSetup_init_def)
qed

text \<open>
  Claim C8: every unit the resolver emits, for every setup, has a signal source or a
  tracker that is not null (never both null).
\<close>

theorem C8_unit_not_both_null:
  "u \<in> set (recognize setup d nm) \<Longrightarrow> \<not> (signals u = PyNone \<and> trackers u = PyNone)"
  by (rule recognize_nonnull(1))

theorem C8_unit_not_both_null_witness:
  "\<lparr>signals = PyNone, signal_type = UKNOWN, trackers = PyTracker 7, name = ''prj/x/1''\<rparr>
     \<in> set (recognize (PyDict [(''x'', PySeq [PyOther 0, PyTracker 7, PyNone])]) () ''prj'')
   \<and> \<not> (signals \<lparr>signals = PyNone, signal_type = UKNOWN, trackers = PyTracker 7,
                    name = ''prj/x/1''\<rparr> = PyNone
        \<and> trackers \<lparr>signals = PyNone, signal_type = UKNOWN, trackers = PyTracker 7,
                    name = ''prj/x/1''\<rparr> = PyNone)"
proof -
  have m: "\<lparr>signals = PyNone, signal_type = UKNOWN, trackers = PyTracker 7, name = ''prj/x/1''\<rparr>
     \<in> set (recognize (PyDict [(''x'', PySeq [PyOther 0, PyTracker 7, PyNone])]) () ''prj'')"
    by (simp add: SimSetup_init_def str_nat_0 str_nat_1)
  from m C8_unit_not_both_null [OF m] show ?thesis by blast
qed

text \<open>
  Claim C10: a two-element sequence whose first element is a tracker and whose second is
  a signal generator is not paired. The resolver descends into it and emits two units: a
  tracker-only unit named \<^verbatim>\<open>name/0\<close> and a generator-only unit named \<^verbatim>\<open>name/1\<close>.
\<close>

theorem C10_reversed_pair_not_paired:
  assumes "type_of trk = TRACKER" and "type_of gen = ESTIMATOR"
  shows "recognize (PySeq [trk, gen]) d nm
     = [SimSetup_init PyNone trk (nm @ ''/0''), SimSetup_init gen PyNone (nm @ ''/1'')]
   \<and> suffix ''/0'' (name (SimSetup_init PyNone trk (nm @ ''/0'')))
   \<and> suffix ''/1'' (name (SimSetup_init gen PyNone (nm @ ''/1'')))"
  using assms
  by (simp add: is_signal_or_generator_def is_tracker_def str_nat_0 str_nat_1
        recognize_tracker recognize_estimator SimSetup_init_def suffixI)

theorem C10_reversed_pair_not_paired_witness:
  "type_of (PyTracker 2) = TRACKER \<and> type_of (PyEstimator 1) = ESTIMATOR
   \<and> recognize (PySeq [PyTracker 2, PyEstimator 1]) () ''prj''
     = [\<lparr>signals = PyNone, signal_type = UKNOWN, trackers = PyTracker 2, name = ''prj/0''\<rparr>,
        \<lparr>signals = PyEstimator 1, signal_type = ESTIMATOR, trackers = PyNone,
          name = ''prj/1''\<rparr>]"
proof -
  have t: "type_of (PyTracker 2) = TRACKER" and g: "type_of (PyEstimator 1) = ESTIMATOR"
    by simp_all
  from C10_reversed_pair_not_paired [OF t g, of "()" "''prj''"] t g
  show ?thesis by (simp add: SimSetup_init_def)
qed

section \<open>Properties of the edge detectors\<close>

lemma fgt_not_flt: "fgt a b \<Longrightarrow> \<not> flt a b"
  by (cases a; cases b) (auto simp: fgt_def)

lemma fle_NaN_left: "\<not> fle NaN y" by simp
lemma fge_NaN_left: "\<not> fge NaN y" by (cases y) (simp_all add: fge_def)

lemma length_shift1: "length (shift1 vs) = length vs"
  by (cases vs) (simp_all add: shift1_def)

lemma shift1_0: "vs \<noteq> [] \<Longrightarrow> shift1 vs ! 0 = NaN"
  by (simp add: shift1_def)

lemma bool_index_iff:
  "length bs = length idx \<Longrightarrow>
   i \<in> set (bool_index idx bs) \<longleftrightarrow> (\<exists>k < length idx. idx ! k = i \<and> bs ! k)"
proof -
  assume len: "length bs = length idx"
  have "i \<in> set (bool_index idx bs) \<longleftrightarrow> (i, True) \<in> set (zip idx bs)"
    unfolding bool_index_def by force
  also have "\<dots> \<longleftrightarrow> (\<exists>k < length idx. idx ! k = i \<and> bs ! k)"
    using len by (auto simp: in_set_zip)
  finally show ?thesis .
qed

lemma distinct_map_nth_eq:
  "distinct (map f xs) \<Longrightarrow> k < length xs \<Longrightarrow> k' < length xs \<Longrightarrow> f (xs ! k) = f (xs ! k')
   \<Longrightarrow> k = k'"
  using nth_eq_iff_index_eq [of "map f xs" k k'] by simp

lemma thr_now_aligned: "aligned x t \<Longrightarrow> \<exists>tv. thr_now (map fst x) t = Inr tv \<and> length tv = length x"
  by (cases t) (auto simp: aligned_def thr_now_def dest: arg_cong[where f=length])

lemma thr_prev_aligned: "aligned x t \<Longrightarrow> \<exists>tv. thr_prev (map fst x) t = Inr tv \<and> length tv = length x"
  by (cases t) (auto simp: aligned_def thr_prev_def length_shift1 dest: arg_cong[where f=length])

text \<open>
  Claim C1: for every series S (its timestamps distinct, as the data model of a time series
  requires) and every threshold T, a constant or a series with the index of S, crossup and
  crossdown both return, the two sets of timestamps are disjoint, and neither contains the
  first index of S.
\<close>

theorem C1_crossings_disjoint_not_first:
  assumes al: "aligned x t" and d: "distinct (map fst x)"
  shows "\<exists>up dn. crossup x t = Inr up \<and> crossdown x t = Inr dn \<and> set up \<inter> set dn = {}
     \<and> (case x of [] \<Rightarrow> up = [] \<and> dn = [] | r # _ \<Rightarrow> fst r \<notin> set up \<and> fst r \<notin> set dn)"
proof -
  from thr_now_aligned[OF al] obtain tv where tv: "thr_now (map fst x) t = Inr tv" "length tv = length x" by blast
  from thr_prev_aligned[OF al] obtain t1 where t1: "thr_prev (map fst x) t = Inr t1" "length t1 = length x" by blast
  let ?idx = "map fst x" and ?v = "map snd x"
  let ?mu = "map2 (\<and>) (map2 fgt ?v tv) (map2 fle (shift1 ?v) t1)"
  let ?md = "map2 (\<and>) (map2 flt ?v tv) (map2 fge (shift1 ?v) t1)"
  have up: "crossup x t = Inr (bool_index ?idx ?mu)" by (simp add: crossup_def tv t1)
  have dn: "crossdown x t = Inr (bool_index ?idx ?md)" by (simp add: crossdown_def tv t1)
  have lu: "length ?mu = length ?idx" and ld: "length ?md = length ?idx"
    by (simp_all add: tv t1 length_shift1)
  have mu: "?mu ! k = (fgt (?v ! k) (tv ! k) \<and> fle (shift1 ?v ! k) (t1 ! k))" if "k < length x" for k
    using that by (simp add: tv t1 length_shift1)
  have md: "?md ! k = (flt (?v ! k) (tv ! k) \<and> fge (shift1 ?v ! k) (t1 ! k))" if "k < length x" for k
    using that by (simp add: tv t1 length_shift1)
  have disj: "set (bool_index ?idx ?mu) \<inter> set (bool_index ?idx ?md) = {}"
  proof (rule ccontr)
    assume "\<not> ?thesis"
    then obtain i where iu: "i \<in> set (bool_index ?idx ?mu)" and idn: "i \<in> set (bool_index ?idx ?md)" by blast
    from iu obtain k where k: "k < length x" "?idx ! k = i" "?mu ! k"
      unfolding bool_index_iff[OF lu] by auto
    from idn obtain k' where k': "k' < length x" "?idx ! k' = i" "?md ! k'"
      unfolding bool_index_iff[OF ld] by auto
    from d k(1,2) k'(1,2) have "k = k'" by (auto intro: distinct_map_nth_eq)
    with k k' mu[of k] md[of k] show False using fgt_not_flt by blast
  qed
  have first: "fst r \<notin> set (bool_index ?idx ?mu) \<and> fst r \<notin> set (bool_index ?idx ?md)" if x: "x = r # rs" for r rs
  proof -
    have ne: "?v \<noteq> []" using x by simp
    have "\<not> ?mu ! 0" using mu[of 0] x shift1_0[OF ne] by simp
    moreover have "\<not> ?md ! 0" using md[of 0] x shift1_0[OF ne] fge_NaN_left by simp
    moreover have "k = 0" if kl: "k < length x" and ke: "?idx ! k = fst r" for k
    proof -
      have l0: "0 < length x" using x by simp
      have e0: "fst (x ! 0) = fst r" using x by simp
      have ek: "fst (x ! k) = fst r" using kl ke by simp
      have "fst (x ! k) = fst (x ! 0)" by (simp only: e0 ek)
      from distinct_map_nth_eq [OF d kl l0 this] show ?thesis .
    qed
    ultimately show ?thesis
      unfolding bool_index_iff[OF lu] bool_index_iff[OF ld] by (metis length_map)
  qed
  show ?thesis
  proof (cases x)
    case Nil
    then show ?thesis using up dn by (simp add: bool_index_def)
  next
    case (Cons r rs)
    then show ?thesis using up dn disj first[OF Cons] by simp
  qed
qed


theorem C1_crossings_disjoint_not_first_witness:
  "aligned [(0::int, Fin 1), (1, Fin 3), (2, Fin 1), (3, Fin 4)] (Scalar (Fin 2))
   \<and> distinct (map fst [(0::int, Fin 1), (1, Fin 3), (2, Fin 1), (3, Fin 4)])
   \<and> crossup [(0::int, Fin 1), (1, Fin 3), (2, Fin 1), (3, Fin 4)] (Scalar (Fin 2)) = Inr [1, 3]
   \<and> crossdown [(0::int, Fin 1), (1, Fin 3), (2, Fin 1), (3, Fin 4)] (Scalar (Fin 2)) = Inr [2]
   \<and> set [1, 3] \<inter> set [2::int] = {} \<and> (0::int) \<notin> set [1, 3] \<and> (0::int) \<notin> set [2]"
proof -
  have a: "aligned [(0::int, Fin 1), (1, Fin 3), (2, Fin 1), (3, Fin 4)] (Scalar (Fin 2))"
    by (simp add: aligned_def)
  have d: "distinct (map fst [(0::int, Fin 1), (1, Fin 3), (2, Fin 1), (3, Fin 4)])"
    by simp
  have u: "crossup [(0::int, Fin 1), (1, Fin 3), (2, Fin 1), (3, Fin 4)] (Scalar (Fin 2))
             = Inr [1, 3]"
    by (simp add: crossup_def thr_now_def thr_prev_def shift1_def bool_index_def fgt_def
          numeral_eq_Suc)
  have w: "crossdown [(0::int, Fin 1), (1, Fin 3), (2, Fin 1), (3, Fin 4)] (Scalar (Fin 2))
             = Inr [2]"
    by (simp add: crossdown_def thr_now_def thr_prev_def shift1_def bool_index_def fge_def
          numeral_eq_Suc)
  from C1_crossings_disjoint_not_first [OF a d] a d u w show ?thesis by simp
qed

section \<open>Properties of the range breakout detector\<close>

lemma shift1_nth: "0 < k \<Longrightarrow> k < length vs \<Longrightarrow> shift1 vs ! k = vs ! (k - 1)"
  by (cases k) (auto simp: shift1_def nth_butlast)

lemma bool_index_subset: "set (bool_index idx bs) \<subseteq> set idx"
  unfolding bool_index_def by (auto dest: set_zip_leftD)


lemma length_masks [simp]:
  "length (b1_bU add thr X) = length X" "length (b1_aL sub thr X) = length X"
  "length (l_o add thr X) = length X" "length (s_o sub thr X) = length X"
  "length (l_c add thr X) = length X" "length (s_c sub thr X) = length X"
  by (simp_all add: b1_bU_def b1_aL_def l_o_def s_o_def l_c_def s_c_def band_U_def band_B_def
        length_shift1)













section \<open>Properties of the validating constructors\<close>

text \<open>
  Claim C7: constructing InternalBarStrength raises the configuration error
  (\<^verbatim>\<open>ValueError\<close>) exactly when the threshold is at most 0 or at least 0.5: thresholds 0.5
  and 0 fail, 0.3 succeeds. Constructing OsiMomentum raises it exactly when the threshold
  exceeds 1: threshold 1.5 fails.
\<close>

theorem C7_threshold_validation:
  "(InternalBarStrength_init tf thr tz = Inl ValueError
      \<longleftrightarrow> fle thr (Fin 0) \<or> fge thr (Fin (1/2)))
   \<and> (isl (InternalBarStrength_init tf thr tz)
      \<longleftrightarrow> fle thr (Fin 0) \<or> fge thr (Fin (1/2)))
   \<and> InternalBarStrength_init tf (Fin (1/2)) tz = Inl ValueError
   \<and> InternalBarStrength_init tf (Fin 0) tz = Inl ValueError
   \<and> InternalBarStrength_init tf (Fin (3/10)) tz
       = Inr \<lparr>ibs_timeframe = tf, ibs_threshold = Fin (3/10), ibs_tz = tz,
               ibs_exact_time = True\<rparr>
   \<and> (OsiMomentum_init period smoothing thr = Inl ValueError \<longleftrightarrow> fgt thr (Fin 1))
   \<and> (isl (OsiMomentum_init period smoothing thr) \<longleftrightarrow> fgt thr (Fin 1))
   \<and> OsiMomentum_init period smoothing (Fin (3/2)) = Inl ValueError"
  by (auto simp: InternalBarStrength_init_def OsiMomentum_init_def fge_def fgt_def)

section \<open>Properties of the run repository\<close>

lemma collect_step_parse:
  "collect_step py_int d rec =
     (case parse_key py_int rec of Inl e \<Rightarrow> Inl e | Inr (p, r, k, m) \<Rightarrow> Inr (index_put d p r k m))"
  unfolding collect_step_def parse_key_def index_put_def
  by (simp add: Let_def split: list.split prod.split option.split)

lemma update_dd_get: "AList.update k v (snd (dd_get dflt d k)) = AList.update k v d"
proof (cases "map_of d k")
  case None
  have "AList.update k v (d @ [(k, dflt)]) = AList.update k v d" using None
    by (induction d) (auto split: if_splits)
  then show ?thesis using None by (simp add: dd_get_def)
next
  case (Some a)
  then show ?thesis by (simp add: dd_get_def)
qed

lemma fst_dd_get: "fst (dd_get [] d k) = getd d k"
  by (simp add: dd_get_def getd_def split: option.split)

lemma index_put_eq:
  "index_put d p r k m =
     AList.update p (AList.update r (sort_key fst (AList.update k m (getd (getd d p) r))) (getd d p)) d"
  unfolding index_put_def
  by (simp add: split_def Let_def update_dd_get fst_dd_get)

lemma set_update_cases:
  "x \<in> set (AList.update k v al) \<Longrightarrow> x = (k, v) \<or> x \<in> set al"
  by (induction al) (auto split: if_splits)

lemma distinct_map_fst_sort_key:
  "distinct (map fst xs) \<Longrightarrow> distinct (map fst (sort_key fst xs))"
  by (induction xs) (auto simp: distinct_insort_key)

lemma map_of_sort_key:
  "distinct (map fst xs) \<Longrightarrow> map_of (sort_key fst xs) = map_of xs"
  by (rule map_of_inject_set [THEN iffD2]) (simp_all add: distinct_map_fst_sort_key)

lemma wf_getd1: "wf_index d \<Longrightarrow> distinct (map fst (getd d p)) \<and>
        (\<forall>(r, recs) \<in> set (getd d p). sorted_wrt (<) (map fst recs))"
  unfolding wf_index_def getd_def
  by (auto split: option.split dest!: map_of_SomeD)

lemma wf_getd2: "wf_index d \<Longrightarrow> sorted_wrt (<) (map fst (getd (getd d p) r))"
  using wf_getd1 [of d p] unfolding getd_def [of "getd d p" r]
  by (auto split: option.split dest!: map_of_SomeD)

lemma wf_index_put: assumes wf: "wf_index d" shows "wf_index (index_put d p r k m)"
proof -
  let ?ra = "getd (getd d p) r"
  let ?ra2 = "sort_key fst (AList.update k m ?ra)"
  let ?prj = "AList.update r ?ra2 (getd d p)"
  have dra: "distinct (map fst ?ra)" using wf_getd2 [OF wf, of p r] by (simp add: strict_sorted_iff)
  have s2: "sorted_wrt (<) (map fst ?ra2)"
    unfolding strict_sorted_iff
    by (simp add: distinct_map_fst_sort_key distinct_update dra)
  have wprj: "distinct (map fst ?prj) \<and> (\<forall>(r, recs) \<in> set ?prj. sorted_wrt (<) (map fst recs))"
    using wf_getd1 [OF wf, of p] s2 by (auto simp: distinct_update dest!: set_update_cases)
  show ?thesis
    unfolding index_put_eq wf_index_def
    using wf wprj unfolding wf_index_def
    by (auto simp: distinct_update dest!: set_update_cases)
qed

lemma lookup3_getd: "lookup3 d (p, r, k) = map_of (getd (getd d p) r) k"
  by (simp add: lookup3_def getd_def split: option.split)

lemma getd_update: "getd (AList.update k v al) k' = (if k' = k then v else getd al k')"
  by (simp add: getd_def update_conv')

lemma lookup3_index_put:
  assumes wf: "wf_index d"
  shows "lookup3 (index_put d p r k m) = (lookup3 d)((p, r, k) \<mapsto> m)"
proof (rule ext)
  fix x :: "string \<times> string \<times> int"
  obtain p' r' k' where x: "x = (p', r', k')" by (cases x)
  have dra: "distinct (map fst (getd (getd d p) r))"
    using wf_getd2 [OF wf, of p r] by (simp add: strict_sorted_iff)
  show "lookup3 (index_put d p r k m) x = ((lookup3 d)((p, r, k) \<mapsto> m)) x"
    unfolding x lookup3_getd index_put_eq
    by (simp add: getd_update map_of_sort_key distinct_update dra update_conv' lookup3_getd)
qed

lemma collect_loop_char:
  "wf_index d \<Longrightarrow> \<forall>rec \<in> set recs. \<exists>x. parse_key py_int rec = Inr x \<Longrightarrow>
   \<exists>idx. collect_loop py_int d recs = Inr idx \<and> wf_index idx
      \<and> lookup3 idx = records_of_keys py_int recs (lookup3 d)"
proof (induction recs arbitrary: d)
  case Nil
  then show ?case by simp
next
  case (Cons rec recs)
  from Cons.prems(2) obtain p r k m where pk: "parse_key py_int rec = Inr (p, r, k, m)"
    by (metis list.set_intros(1) prod_cases4)
  have wf': "wf_index (index_put d p r k m)" by (rule wf_index_put [OF Cons.prems(1)])
  from Cons.IH [OF wf'] Cons.prems(2)
  obtain idx where "collect_loop py_int (index_put d p r k m) recs = Inr idx" "wf_index idx"
    "lookup3 idx = records_of_keys py_int recs (lookup3 (index_put d p r k m))" by auto
  then show ?case
    by (simp add: collect_step_parse pk lookup3_index_put [OF Cons.prems(1)])
qed

lemma collect_loop_parses:
  "collect_loop py_int d recs = Inr idx \<Longrightarrow> rec \<in> set recs \<Longrightarrow> \<exists>x. parse_key py_int rec = Inr x"
  by (induction recs arbitrary: d)
     (auto simp: collect_step_parse split: sum.splits)

lemma records_of_keys_sound:
  "records_of_keys py_int recs f (p, r, k) = Some m \<Longrightarrow>
   f (p, r, k) = Some m \<or> (\<exists>rec \<in> set recs. parse_key py_int rec = Inr (p, r, k, m))"
proof (induction recs arbitrary: f)
  case Nil
  then show ?case by simp
next
  case (Cons a recs)
  show ?case
  proof (cases "parse_key py_int a")
    case (Inl e)
    with Cons show ?thesis by auto
  next
    case (Inr y)
    obtain p' r' k' m' where y: "y = (p', r', k', m')" by (cases y)
    from Cons.prems Inr y
    have "records_of_keys py_int recs (f((p', r', k') \<mapsto> m')) (p, r, k) = Some m" by simp
    from Cons.IH [OF this] Inr y show ?thesis by (auto split: if_splits)
  qed
qed

lemma records_of_keys_keeps:
  "f x \<noteq> None \<Longrightarrow> records_of_keys py_int recs f x \<noteq> None"
  by (induction recs arbitrary: f) (auto split: sum.splits)

lemma records_of_keys_complete:
  "rec \<in> set recs \<Longrightarrow> parse_key py_int rec = Inr (p, r, k, m) \<Longrightarrow>
   records_of_keys py_int recs f (p, r, k) \<noteq> None"
proof (induction recs arbitrary: f)
  case Nil
  then show ?case by simp
next
  case (Cons a recs)
  show ?case
  proof (cases "rec = a")
    case True
    have "(f((p, r, k) \<mapsto> m)) (p, r, k) \<noteq> None" by simp
    from records_of_keys_keeps [of "f((p, r, k) \<mapsto> m)" "(p, r, k)" py_int recs] this
      True Cons.prems(2) show ?thesis by simp
  next
    case False
    with Cons.prems have "rec \<in> set recs" by simp
    from Cons.IH [OF this Cons.prems(2)] show ?thesis
      by (cases "parse_key py_int a") auto
  qed
qed

lemma split_on_nonempty: "split_on c xs \<noteq> []"
  by (induction xs) (auto split: list.split)

lemma split_on_notin: "c \<notin> set a \<Longrightarrow> split_on c a = [a]"
  by (induction a) auto

lemma split_on_append: "c \<notin> set a \<Longrightarrow> split_on c (a @ c # b) = a # split_on c b"
  by (induction a) (auto split: list.split simp: split_on_nonempty)

lemma parse_key_run_key:
  assumes ok: "key_parts_ok py_int (prj, task, ks, smb, rid)" and k: "py_int ks = Some k"
  shows "parse_key py_int (run_key (prj, task, ks, smb, rid))
    = Inr (prj, rid, k, \<lparr>runid = rid, symbol = smb, path = run_key (prj, task, ks, smb, rid)\<rparr>)"
proof -
  let ?seg = "task @ CHR ''.'' # ks @ CHR ''.'' # smb"
  have ns: "CHR ''/'' \<notin> set ''runs''" "CHR ''/'' \<notin> set prj" "CHR ''/'' \<notin> set ?seg"
    "CHR ''/'' \<notin> set rid" "CHR ''.'' \<notin> set task" "CHR ''.'' \<notin> set ks" "CHR ''.'' \<notin> set smb"
    using ok by (auto simp: key_parts_ok_def)
  have "run_key (prj, task, ks, smb, rid) = ''runs'' @ CHR ''/'' # prj @ CHR ''/'' # ?seg @ CHR ''/'' # rid"
    by (simp add: run_key_def)
  then have sp: "split_on CHR ''/'' (run_key (prj, task, ks, smb, rid)) = [''runs'', prj, ?seg, rid]"
    by (simp only: split_on_append [OF ns(1)] split_on_append [OF ns(2)]
          split_on_append [OF ns(3)] split_on_notin [OF ns(4)])
  have sd: "split_on CHR ''.'' ?seg = [task, ks, smb]"
    by (simp only: split_on_append [OF ns(5)] split_on_append [OF ns(6)]
          split_on_notin [OF ns(7)])
  show ?thesis unfolding parse_key_def sp by (simp add: sd k Let_def del: split_on.simps)
qed

text \<open>
  Claim C5, as the spec states it: keys have the form
  \<^verbatim>\<open>runs/{project}/{run_id}/{sequence_index}.{symbol}\<close> and the last segment is split on the
  dot. On the code the segment after the project is the one split on the dot, and the
  last segment is the run id: the key \<^verbatim>\<open>runs/prj/run1/0.EURUSD\<close> raises \<^verbatim>\<open>IndexError\<close>, and
  \<^verbatim>\<open>runs/prj/v1.2.3/0.EURUSD\<close> is filed under run id \<^verbatim>\<open>0.EURUSD\<close> with sequence number 2
  and symbol \<^verbatim>\<open>3\<close>.
\<close>

theorem C5_key_layout_counterexample:
  "collect_data int_of_decimal [''runs/prj/run1/0.EURUSD''] = Inl IndexError
   \<and> collect_data int_of_decimal [''runs/prj/v1.2.3/0.EURUSD'']
      = Inr [(''prj'', [(''0.EURUSD'',
               [(2, \<lparr>runid = ''0.EURUSD'', symbol = ''3'',
                       path = ''runs/prj/v1.2.3/0.EURUSD''\<rparr>)])])]"
  by code_simp

text \<open>
  Claim C5, amended: for every listing of keys of the form
  \<^verbatim>\<open>runs/{project}/{task}.{sequence_index}.{symbol}/{run_id}\<close>, index construction returns
  an index; it reads the project from the segment after \<^verbatim>\<open>runs\<close>, the run id from the last
  segment, and the sequence index and the symbol from the middle segment split on the dot.
  The records are grouped by project, then run id (no project and no run id twice), each
  run's records are in strictly ascending order of the sequence index, every listed key
  has an entry under its project, run id and sequence index, and every entry is the record
  of a listed key with that project, run id and sequence index.
\<close>

theorem C5_index_construction:
  assumes ok: "\<forall>c \<in> set comps. key_parts_ok py_int c"
  shows "\<exists>idx. collect_data py_int (map run_key comps) = Inr idx
     \<and> distinct (map fst idx)
     \<and> (\<forall>(p, runs) \<in> set idx. distinct (map fst runs) \<and>
          (\<forall>(r, recs) \<in> set runs. sorted_wrt (<) (map fst recs)))
     \<and> (\<forall>(prj, task, ks, smb, rid) \<in> set comps.
          lookup3 idx (prj, rid, the (py_int ks)) \<noteq> None)
     \<and> (\<forall>p r k m. lookup3 idx (p, r, k) = Some m \<longrightarrow>
          (\<exists>(prj, task, ks, smb, rid) \<in> set comps. p = prj \<and> r = rid \<and> py_int ks = Some k
             \<and> m = \<lparr>runid = rid, symbol = smb, path = run_key (prj, task, ks, smb, rid)\<rparr>))"
proof -
  let ?recs = "map run_key comps"
  have pk: "parse_key py_int (run_key (prj, task, ks, smb, rid))
      = Inr (prj, rid, the (py_int ks),
             \<lparr>runid = rid, symbol = smb, path = run_key (prj, task, ks, smb, rid)\<rparr>)"
    if "(prj, task, ks, smb, rid) \<in> set comps" for prj task ks smb rid
  proof -
    from ok that have o: "key_parts_ok py_int (prj, task, ks, smb, rid)" by blast
    then obtain k where "py_int ks = Some k" by (auto simp: key_parts_ok_def)
    with parse_key_run_key [OF o this] show ?thesis by simp
  qed
  have all: "\<forall>rec \<in> set ?recs. \<exists>x. parse_key py_int rec = Inr x"
    using pk by auto
  have wf0: "wf_index []" by (simp add: wf_index_def)
  from collect_loop_char [OF wf0 all]
  obtain idx where idx: "collect_data py_int ?recs = Inr idx" "wf_index idx"
    and lk: "lookup3 idx = records_of_keys py_int ?recs (lookup3 [])"
    unfolding collect_data_def by blast
  have l0: "lookup3 [] = Map.empty" by (rule ext) (simp add: lookup3_def split_def)
  have comp: "lookup3 idx (prj, rid, the (py_int ks)) \<noteq> None"
    if c: "(prj, task, ks, smb, rid) \<in> set comps" for prj task ks smb rid
  proof -
    have "run_key (prj, task, ks, smb, rid) \<in> set ?recs" using c by simp
    from records_of_keys_complete [OF this pk [OF c]] show ?thesis by (simp add: lk)
  qed
  have snd: "\<exists>(prj, task, ks, smb, rid) \<in> set comps. p = prj \<and> r = rid \<and> py_int ks = Some k
             \<and> m = \<lparr>runid = rid, symbol = smb, path = run_key (prj, task, ks, smb, rid)\<rparr>"
    if "lookup3 idx (p, r, k) = Some m" for p r k m
  proof -
    from that have "records_of_keys py_int ?recs Map.empty (p, r, k) = Some m" by (simp add: lk l0)
    from records_of_keys_sound [OF this]
    obtain c where c: "c \<in> set comps" "parse_key py_int (run_key c) = Inr (p, r, k, m)" by auto
    obtain prj task ks smb rid where cc: "c = (prj, task, ks, smb, rid)" by (cases c)
    from ok c(1) cc obtain k' where k': "py_int ks = Some k'" by (auto simp: key_parts_ok_def)
    from pk [of prj task ks smb rid] c cc k'
    have "p = prj \<and> r = rid \<and> py_int ks = Some k
             \<and> m = \<lparr>runid = rid, symbol = smb, path = run_key (prj, task, ks, smb, rid)\<rparr>"
      by auto
    with c(1) cc show ?thesis by (intro bexI [of _ "(prj, task, ks, smb, rid)"]) auto
  qed
  from idx comp snd show ?thesis unfolding wf_index_def by blast
qed


theorem C5_index_construction_witness:
  "key_parts_ok int_of_decimal (''prj'', ''sim'', ''2'', ''EURUSD'', ''run1'')
   \<and> key_parts_ok int_of_decimal (''prj'', ''sim'', ''0'', ''GBPUSD'', ''run1'')
   \<and> key_parts_ok int_of_decimal (''other'', ''t'', ''1'', ''X'', ''r9'')
   \<and> collect_data int_of_decimal (map run_key
        [(''prj'', ''sim'', ''2'', ''EURUSD'', ''run1''),
         (''prj'', ''sim'', ''0'', ''GBPUSD'', ''run1''),
         (''other'', ''t'', ''1'', ''X'', ''r9'')])
      = Inr [(''prj'',
              [(''run1'',
                [(0, \<lparr>runid = ''run1'', symbol = ''GBPUSD'',
                        path = ''runs/prj/sim.0.GBPUSD/run1''\<rparr>),
                 (2, \<lparr>runid = ''run1'', symbol = ''EURUSD'',
                        path = ''runs/prj/sim.2.EURUSD/run1''\<rparr>)])]),
             (''other'',
              [(''r9'', [(1, \<lparr>runid = ''r9'', symbol = ''X'',
                              path = ''runs/other/t.1.X/r9''\<rparr>)])])]"
proof -
  have k1: "key_parts_ok int_of_decimal (''prj'', ''sim'', ''2'', ''EURUSD'', ''run1'')"
    and k2: "key_parts_ok int_of_decimal (''prj'', ''sim'', ''0'', ''GBPUSD'', ''run1'')"
    and k3: "key_parts_ok int_of_decimal (''other'', ''t'', ''1'', ''X'', ''r9'')"
    by code_simp+
  have ok: "\<forall>c \<in> set [(''prj'', ''sim'', ''2'', ''EURUSD'', ''run1''),
         (''prj'', ''sim'', ''0'', ''GBPUSD'', ''run1''),
         (''other'', ''t'', ''1'', ''X'', ''r9'')]. key_parts_ok int_of_decimal c"
    using k1 k2 k3 by simp
  have ev: "collect_data int_of_decimal (map run_key
        [(''prj'', ''sim'', ''2'', ''EURUSD'', ''run1''),
         (''prj'', ''sim'', ''0'', ''GBPUSD'', ''run1''),
         (''other'', ''t'', ''1'', ''X'', ''r9'')])
      = Inr [(''prj'',
              [(''run1'',
                [(0, \<lparr>runid = ''run1'', symbol = ''GBPUSD'',
                        path = ''runs/prj/sim.0.GBPUSD/run1''\<rparr>),
                 (2, \<lparr>runid = ''run1'', symbol = ''EURUSD'',
                        path = ''runs/prj/sim.2.EURUSD/run1''\<rparr>)])]),
             (''other'',
              [(''r9'', [(1, \<lparr>runid = ''r9'', symbol = ''X'',
                              path = ''runs/other/t.1.X/r9''\<rparr>)])])]"
    by code_simp
  from C5_index_construction [OF ok] obtain idx where
    "collect_data int_of_decimal (map run_key
        [(''prj'', ''sim'', ''2'', ''EURUSD'', ''run1''),
         (''prj'', ''sim'', ''0'', ''GBPUSD'', ''run1''),
         (''other'', ''t'', ''1'', ''X'', ''r9'')]) = Inr idx" by blast
  with ev k1 k2 k3 show ?thesis by (simp only: simp_thms)
qed

lemma projects_pure: "snd (projects m) = m"
  by (simp add: projects_def)

lemma runs_for_present:
  "map_of (mgr_p m) prj = Some runs \<Longrightarrow> runs_for m prj = (map fst runs, m)"
  by (simp add: runs_for_def dd_get_def)

lemma runs_for_absent:
  "map_of (mgr_p m) prj = None \<Longrightarrow>
   runs_for m prj = ([], m\<lparr>mgr_p := mgr_p m @ [(prj, [])]\<rparr>)"
  by (simp add: runs_for_def dd_get_def)

text \<open>
  Claim C6 says that \<^verbatim>\<open>runsFor\<close> is a pure lookup that fails with a not-found error for a
  project absent from the index. The code, at the index holding only project \<^verbatim>\<open>prjA\<close>
  and the absent project \<^verbatim>\<open>nope\<close>: \<^verbatim>\<open>runs_for\<close> returns the empty list, and the index
  afterwards has the new empty project \<^verbatim>\<open>nope\<close>, which \<^verbatim>\<open>projects\<close> then lists. The
  sibling \<^verbatim>\<open>run_data\<close> does raise \<^verbatim>\<open>ValueError\<close> for the same absent project.
\<close>

theorem C6_runs_for_absent_project:
  "runs_for \<lparr>mgr_host = None, mgr_p = [(''prjA'', [(''run1'', [])])]\<rparr> ''nope''
     = ([], \<lparr>mgr_host = None, mgr_p = [(''prjA'', [(''run1'', [])]), (''nope'', [])]\<rparr>)
   \<and> fst (projects (snd (runs_for
         \<lparr>mgr_host = None, mgr_p = [(''prjA'', [(''run1'', [])])]\<rparr> ''nope'')))
     = [''prjA'', ''nope'']
   \<and> run_data \<lparr>mgr_host = None, mgr_p = [(''prjA'', [(''run1'', [])])]\<rparr> ''nope'' ''run1''
     = Inl ValueError"
  by (simp add: runs_for_def dd_get_def projects_def run_data_def)

lemma fold_z_del:
  "fold (\<lambda>(k, r). z_del (path r)) recs store key
     = (if key \<in> (\<lambda>(k, r). path r) ` set recs then None else store key)"
  by (induction recs arbitrary: store) (auto simp: z_del_def)

text \<open>
  Claim C9: \<^verbatim>\<open>delete()\<close> on the data of a run, obtained from its manager, returns; it
  removes the artifact of every record of the run from the store (and no other), leaves the
  run data with an empty record collection, and leaves the manager unchanged: the manager's
  index still holds the run's records and still lists the run.
\<close>

theorem C9_delete_frame:
  assumes rd: "run_data m prj run_id = Inr rd"
  shows "\<exists>recs store'. deref m (rd_p rd) = Some recs
     \<and> delete rd m store = Inr (rd\<lparr>rd_p := EmptyList\<rparr>, m, store')
     \<and> (\<forall>(k, r) \<in> set recs. store' (path r) = None)
     \<and> (\<forall>key. key \<notin> (\<lambda>(k, r). path r) ` set recs \<longrightarrow> store' key = store key)
     \<and> run_id \<in> set (fst (runs_for m prj)) \<and> snd (runs_for m prj) = m"
proof -
  from rd obtain runs where runs: "map_of (mgr_p m) prj = Some runs"
    and mem: "run_id \<in> set (map fst runs)"
    and rdv: "rd = \<lparr>rd_p = IndexDict prj run_id, rd_prj = prj, rd_run_id = run_id,
                    rd_host = None\<rparr>"
    by (auto simp: run_data_def split: option.splits if_splits)
  from mem obtain recs where recs: "map_of runs run_id = Some recs"
    by (cases "map_of runs run_id") (auto simp: map_of_eq_None_iff)
  have dr: "deref m (rd_p rd) = Some recs" by (simp add: deref_def rdv runs recs)
  let ?st = "fold (\<lambda>(k, r). z_del (path r)) recs store"
  have del: "delete rd m store = Inr (rd\<lparr>rd_p := EmptyList\<rparr>, m, ?st)"
    using dr by (simp add: delete_def rdv)
  have gone: "\<forall>(k, r) \<in> set recs. ?st (path r) = None"
    by (auto simp: fold_z_del)
  have kept: "\<forall>key. key \<notin> (\<lambda>(k, r). path r) ` set recs \<longrightarrow> ?st key = store key"
    by (simp add: fold_z_del)
  have rf: "run_id \<in> set (fst (runs_for m prj)) \<and> snd (runs_for m prj) = m"
    using runs_for_present [OF runs] mem by simp
  from dr del gone kept rf show ?thesis by blast
qed

theorem C9_delete_frame_witness:
  "run_data \<lparr>mgr_host = None, mgr_p = [(''prj'', [(''run1'',
        [(0, \<lparr>runid = ''run1'', symbol = ''A'', path = ''runs/prj/t.0.A/run1''\<rparr>),
         (1, \<lparr>runid = ''run1'', symbol = ''B'', path = ''runs/prj/t.1.B/run1''\<rparr>)])])]\<rparr>
      ''prj'' ''run1''
     = Inr \<lparr>rd_p = IndexDict ''prj'' ''run1'', rd_prj = ''prj'', rd_run_id = ''run1'',
            rd_host = None\<rparr>
   \<and> (case delete \<lparr>rd_p = IndexDict ''prj'' ''run1'', rd_prj = ''prj'', rd_run_id = ''run1'',
            rd_host = None\<rparr>
          \<lparr>mgr_host = None, mgr_p = [(''prj'', [(''run1'',
            [(0, \<lparr>runid = ''run1'', symbol = ''A'', path = ''runs/prj/t.0.A/run1''\<rparr>),
             (1, \<lparr>runid = ''run1'', symbol = ''B'', path = ''runs/prj/t.1.B/run1''\<rparr>)])])]\<rparr>
          [''runs/prj/t.0.A/run1'' \<mapsto> (10::nat), ''runs/prj/t.1.B/run1'' \<mapsto> 11,
           ''runs/prj/t.0.A/run2'' \<mapsto> 12] of
        Inl e \<Rightarrow> False
      | Inr (rd', m', store') \<Rightarrow>
          rd_p rd' = EmptyList
          \<and> m' = \<lparr>mgr_host = None, mgr_p = [(''prj'', [(''run1'',
            [(0, \<lparr>runid = ''run1'', symbol = ''A'', path = ''runs/prj/t.0.A/run1''\<rparr>),
             (1, \<lparr>runid = ''run1'', symbol = ''B'', path = ''runs/prj/t.1.B/run1''\<rparr>)])])]\<rparr>
          \<and> store' ''runs/prj/t.0.A/run1'' = None \<and> store' ''runs/prj/t.1.B/run1'' = None
          \<and> store' ''runs/prj/t.0.A/run2'' = Some 12)"
proof -
  let ?m = "\<lparr>mgr_host = None, mgr_p = [(''prj'', [(''run1'',
        [(0, \<lparr>runid = ''run1'', symbol = ''A'', path = ''runs/prj/t.0.A/run1''\<rparr>),
         (1, \<lparr>runid = ''run1'', symbol = ''B'', path = ''runs/prj/t.1.B/run1''\<rparr>)])])]\<rparr>"
  let ?rd = "\<lparr>rd_p = IndexDict ''prj'' ''run1'', rd_prj = ''prj'', rd_run_id = ''run1'',
            rd_host = None\<rparr>"
  let ?st = "[''runs/prj/t.0.A/run1'' \<mapsto> (10::nat), ''runs/prj/t.1.B/run1'' \<mapsto> 11,
           ''runs/prj/t.0.A/run2'' \<mapsto> 12]"
  have rd: "run_data ?m ''prj'' ''run1'' = Inr ?rd" by (simp add: run_data_def)
  from C9_delete_frame [OF rd, of ?st] obtain recs store' where
    dr: "deref ?m (rd_p ?rd) = Some recs"
    and del: "delete ?rd ?m ?st = Inr (?rd\<lparr>rd_p := EmptyList\<rparr>, ?m, store')"
    and gone: "\<forall>(k, r) \<in> set recs. store' (path r) = None"
    and kept: "\<forall>key. key \<notin> (\<lambda>(k, r). path r) ` set recs \<longrightarrow> store' key = ?st key"
    by blast
  from dr have recs: "recs = [(0, \<lparr>runid = ''run1'', symbol = ''A'', path = ''runs/prj/t.0.A/run1''\<rparr>),
         (1, \<lparr>runid = ''run1'', symbol = ''B'', path = ''runs/prj/t.1.B/run1''\<rparr>)]"
    by (simp add: deref_def)
  have g0: "store' ''runs/prj/t.0.A/run1'' = None" and g1: "store' ''runs/prj/t.1.B/run1'' = None"
    using gone unfolding recs by simp_all
  have k2: "store' ''runs/prj/t.0.A/run2'' = Some 12"
    using kept [rule_format, of "''runs/prj/t.0.A/run2''"] unfolding recs by simp
  show ?thesis using rd del g0 g1 k2 by simp
qed

section \<open>Properties of the stub signals\<close>











end
